theory Spec2Isabelle
  imports Complex_Main
begin

section \<open>Python string primitives used by the policy engine\<close>

text \<open>
  Python \<open>str\<close> values are modelled as \<open>string\<close>. The methods below are the ones
  \<open>policy.py\<close> calls: \<open>startswith\<close>, \<open>endswith\<close>, \<open>in\<close> (substring test),
  \<open>rstrip(chars)\<close>, \<open>split(sep)\<close> and slicing \<open>s[2:]\<close>.
\<close>

definition startswith :: "string \<Rightarrow> string \<Rightarrow> bool" where
  "startswith s p = (take (length p) s = p)"

definition endswith :: "string \<Rightarrow> string \<Rightarrow> bool" where
  "endswith s p = (length p \<le> length s \<and> drop (length s - length p) s = p)"

text \<open>\<open>sub in s\<close>: \<open>sub\<close> occurs in \<open>s\<close> as a contiguous substring.\<close>

fun contains :: "string \<Rightarrow> string \<Rightarrow> bool" where
  "contains [] sub = (sub = [])"
| "contains (c # cs) sub = (startswith (c # cs) sub \<or> contains cs sub)"

text \<open>
  \<open>s.rstrip(chars)\<close>: the argument is a \<^emph>\<open>set of characters\<close>; every trailing character
  of \<open>s\<close> that belongs to it is removed.
\<close>

definition rstrip :: "string \<Rightarrow> string \<Rightarrow> string" where
  "rstrip chars s = rev (dropWhile (\<lambda>c. c \<in> set chars) (rev s))"

text \<open>
  \<open>s.split(sep)\<close> for a non-empty separator: the pieces between the successive,
  non-overlapping occurrences of \<open>sep\<close>, scanned from the left. (Python raises ValueError for
  an empty separator; both call sites pass a non-empty constant, and the model then
  returns the whole string as one piece.)
\<close>

function split_aux :: "string \<Rightarrow> string \<Rightarrow> string \<Rightarrow> string list" where
  "split_aux sep acc s =
     (if s = [] then [rev acc]
      else if sep \<noteq> [] \<and> startswith s sep
        then rev acc # split_aux sep [] (drop (length sep) s)
      else split_aux sep (hd s # acc) (tl s))"
  by pat_completeness auto
termination
  by (relation "measure (\<lambda>(sep, acc, s). length s)") auto

definition split :: "string \<Rightarrow> string \<Rightarrow> string list" where
  "split sep s = split_aux sep [] s"

section \<open>Classic glob matching: \<open>fnmatch.fnmatch\<close> of the Python standard library\<close>

text \<open>
  \<open>policy.py\<close> calls \<open>fnmatch.fnmatch(path, pattern)\<close>. The library normalises the case
  of both arguments (the identity on POSIX, which is modelled), translates the pattern
  into a regular expression (\<open>fnmatch.translate\<close>) and matches the whole name against it.
  The model follows \<open>translate\<close> of CPython 3.9 to 3.13: \<open>*\<close> becomes "any run of
  characters", \<open>?\<close> "any one character", \<open>[seq]\<close> a character set (with \<open>!\<close> for negation,
  ranges \<open>a-z\<close>, empty ranges removed), a \<open>[\<close> that is never closed a literal, and every
  other character a literal. A regular-expression fragment is represented by what it
  matches (\<open>tok\<close>), not by its text.
\<close>

datatype item = Ch char | Rg char char

datatype tok = TStar | TAny | TLit char | TSet bool "item list"

text \<open>
  The scan for the closing bracket: \<open>cs\<close> is the pattern after the \<open>[\<close>; a leading \<open>!\<close>
  and then a leading \<open>]\<close> are skipped, and the next \<open>]\<close> closes the set.
\<close>

definition bracket_end :: "string \<Rightarrow> nat option" where
  "bracket_end cs =
     (let n = length cs;
          j1 = (if 0 < n \<and> cs ! 0 = CHR ''!'' then 1 else 0);
          j2 = (if j1 < n \<and> cs ! j1 = CHR '']'' then j1 + 1 else j1);
          j3 = j2 + length (takeWhile (\<lambda>c. c \<noteq> CHR '']'') (drop j2 cs))
      in if j3 \<ge> n then None else Some j3)"

text \<open>\<open>s.find(c, k)\<close>: the first index at or after \<open>k\<close> that holds \<open>c\<close>.\<close>

definition find_from :: "char \<Rightarrow> string \<Rightarrow> nat \<Rightarrow> nat option" where
  "find_from c s k =
     (if c \<in> set (drop k s)
      then Some (k + length (takeWhile (\<lambda>x. x \<noteq> c) (drop k s)))
      else None)"

text \<open>
  The set body \<open>stuff\<close> is cut into chunks at the hyphens that write a range: the search
  starts after the first character (after the first two when the set is negated) and
  resumes three places after each hyphen found.
\<close>

function chunks_loop :: "string \<Rightarrow> nat \<Rightarrow> nat \<Rightarrow> string list \<Rightarrow> string list \<times> nat" where
  "chunks_loop stuff i k chunks =
     (case find_from CHR ''-'' stuff k of
        None \<Rightarrow> (chunks, i)
      | Some k' \<Rightarrow>
          chunks_loop stuff (k' + 1) (k' + 3) (chunks @ [take (k' - i) (drop i stuff)]))"
  by pat_completeness auto
termination
proof (relation "measure (\<lambda>(stuff, i, k, chunks). length stuff - k)")
  show "wf (measure (\<lambda>(stuff, i, k, chunks). length stuff - k))" by simp
next
  fix stuff :: string and i k :: nat and chunks :: "string list" and k' :: nat
  assume a: "find_from CHR ''-'' stuff k = Some k'"
  have shorter: "x \<in> set xs \<Longrightarrow> length (takeWhile (\<lambda>y. y \<noteq> x) xs) < length xs"
    for x :: char and xs
    by (induction xs) auto
  from a have m: "CHR ''-'' \<in> set (drop k stuff)"
    and e: "k' = k + length (takeWhile (\<lambda>x. x \<noteq> CHR ''-'') (drop k stuff))"
    by (auto simp: find_from_def split: if_splits)
  have "length (takeWhile (\<lambda>x. x \<noteq> CHR ''-'') (drop k stuff)) < length (drop k stuff)"
    using m by (rule shorter)
  then have "k \<le> k' \<and> k' < length stuff" using e by auto
  then show "((stuff, k' + 1, k' + 3, chunks @ [take (k' - i) (drop i stuff)]),
              (stuff, i, k, chunks))
        \<in> measure (\<lambda>(stuff, i, k, chunks). length stuff - k)"
    by auto
qed

definition chunks_of :: "string \<Rightarrow> string list" where
  "chunks_of stuff =
     (case chunks_loop stuff 0 (if take 1 stuff = ''!'' then 2 else 1) [] of
        (chunks, i) \<Rightarrow>
          (let chunk = drop i stuff
           in if chunk \<noteq> [] then chunks @ [chunk]
              else butlast chunks @ [last chunks @ ''-'']))"

text \<open>
  The loop \<open>for k in range(len(chunks)-1, 0, -1)\<close>: from the right, a range whose lower
  end is above its upper end is dropped by gluing the two chunks without the end points.
\<close>

fun remove_empty_ranges :: "string list \<Rightarrow> string list" where
  "remove_empty_ranges [] = []"
| "remove_empty_ranges [c] = [c]"
| "remove_empty_ranges (a # b0 # rest) =
     (case remove_empty_ranges (b0 # rest) of
        [] \<Rightarrow> [a]
      | b # rest' \<Rightarrow>
          if (of_char (last a) :: nat) > of_char (hd b)
          then (butlast a @ tl b) # rest'
          else a # b # rest')"

text \<open>
  What the chunks joined by hyphens denote as a regular-expression set: the hyphen between
  two chunks makes a range from the last character of the left one to the first of the
  right one, every other character (the escaped hyphens inside a chunk too) stands for
  itself; a hyphen with nothing to its left is a literal hyphen.
\<close>

fun items_of :: "string list \<Rightarrow> item list" where
  "items_of [] = []"
| "items_of [c] = map Ch c"
| "items_of (c # d # rest) =
     (if c = [] then Ch CHR ''-'' # items_of (d # rest)
      else map Ch (butlast c) @ Rg (last c) (hd d) # items_of (tl d # rest))"

definition class_tok :: "string \<Rightarrow> tok" where
  "class_tok stuff =
     (let chunks = (if CHR ''-'' \<notin> set stuff then [stuff]
                    else remove_empty_ranges (chunks_of stuff))
      in case chunks of
           [] \<Rightarrow> TSet False []
         | c0 # rest \<Rightarrow>
             if take 1 c0 = ''!'' then TSet True (items_of (tl c0 # rest))
             else TSet False (items_of (c0 # rest)))"

function translate :: "string \<Rightarrow> tok list" where
  "translate [] = []"
| "translate (c # cs) =
     (if c = CHR ''*'' then TStar # translate cs
      else if c = CHR ''?'' then TAny # translate cs
      else if c = CHR ''['' then
        (case bracket_end cs of
           None \<Rightarrow> TLit CHR ''['' # translate cs
         | Some j \<Rightarrow> class_tok (take j cs) # translate (drop (j + 1) cs))
      else TLit c # translate cs)"
  by pat_completeness auto
termination
  by (relation "measure length") auto

fun item_ok :: "item \<Rightarrow> char \<Rightarrow> bool" where
  "item_ok (Ch x) c = (c = x)"
| "item_ok (Rg lo hi) c =
     ((of_char lo :: nat) \<le> of_char c \<and> (of_char c :: nat) \<le> of_char hi)"

fun tok_ok :: "tok \<Rightarrow> char \<Rightarrow> bool" where
  "tok_ok TStar c = True"
| "tok_ok TAny c = True"
| "tok_ok (TLit x) c = (c = x)"
| "tok_ok (TSet neg items) c = (list_ex (\<lambda>i. item_ok i c) items \<noteq> neg)"

text \<open>Matching the whole name: a star takes nothing, or one character and stays.\<close>

fun match_toks :: "tok list \<Rightarrow> string \<Rightarrow> bool" where
  "match_toks [] s = (s = [])"
| "match_toks (TStar # ts) [] = match_toks ts []"
| "match_toks (TStar # ts) (c # s) = (match_toks ts (c # s) \<or> match_toks (TStar # ts) s)"
| "match_toks (t # ts) [] = False"
| "match_toks (t # ts) (c # s) = (tok_ok t c \<and> match_toks ts s)"

definition fnmatch :: "string \<Rightarrow> string \<Rightarrow> bool" where
  "fnmatch name pat = match_toks (translate pat) name"

section \<open>PathMatcher: \<open>PolicyEngine._match_file_pattern\<close>\<close>

definition match_file_pattern :: "string \<Rightarrow> string \<Rightarrow> bool" where
  "match_file_pattern path pattern =
     (if contains pattern ''**'' then
        (let prefix = hd (split ''**'' pattern)
         in startswith path prefix \<or> fnmatch path pattern)
      else if contains pattern ''*'' \<and> \<not> contains pattern ''**'' then
        (let prefix = rstrip ''/'' (rstrip ''*'' pattern)
         in if \<not> startswith path prefix then False else True)
      else fnmatch path pattern)"

section \<open>DomainMatcher: \<open>PolicyEngine._match_domain\<close>\<close>

text \<open>
  The preprocessing line of the source is \<open>pattern.rstrip(":").rstrip("0-9")\<close>: first the
  trailing colons go, then the trailing characters out of the three-character set
  \<open>0\<close>, \<open>-\<close>, \<open>9\<close>.
\<close>

definition base_pattern :: "string \<Rightarrow> string" where
  "base_pattern pattern = rstrip ''0-9'' (rstrip '':'' pattern)"

definition match_domain :: "string \<Rightarrow> string \<Rightarrow> bool" where
  "match_domain domain pattern =
     (if startswith pattern ''*.''
      then (let base = drop 2 (base_pattern pattern)
            in domain = base \<or> endswith domain (''.'' @ base))
      else domain = base_pattern pattern \<or> startswith domain (base_pattern pattern @ '':''))"

section \<open>Values read from a policy file\<close>

text \<open>
  \<open>Policy.from_dict\<close> receives what \<open>json.load\<close> returns and checks the type of \<open>name\<close>
  only, so the fields of a policy hold arbitrary JSON values. A float is kept as its value
  (or as one of the three non-numbers that \<open>json\<close> accepts); a dict is the list of its
  items in insertion order, with distinct keys.
\<close>

datatype pyfloat = FNum real | FInf | FNegInf | FNaN

datatype pyval =
    PNone
  | PBool bool
  | PInt int
  | PFloat pyfloat
  | PStr string
  | PList "pyval list"
  | PDict "(string \<times> pyval) list"

datatype error = ValueError string | TypeError | AttributeError

text \<open>\<open>bool(v)\<close>, as \<open>not v\<close> and \<open>v or []\<close> use it.\<close>

fun truthy :: "pyval \<Rightarrow> bool" where
  "truthy PNone = False"
| "truthy (PBool b) = b"
| "truthy (PInt i) = (i \<noteq> 0)"
| "truthy (PFloat f) = (f \<noteq> FNum 0)"
| "truthy (PStr s) = (s \<noteq> [])"
| "truthy (PList xs) = (xs \<noteq> [])"
| "truthy (PDict kvs) = (kvs \<noteq> [])"

text \<open>\<open>type(v).__name__\<close>\<close>

fun type_name :: "pyval \<Rightarrow> string" where
  "type_name PNone = ''NoneType''"
| "type_name (PBool b) = ''bool''"
| "type_name (PInt i) = ''int''"
| "type_name (PFloat f) = ''float''"
| "type_name (PStr s) = ''str''"
| "type_name (PList xs) = ''list''"
| "type_name (PDict kvs) = ''dict''"

text \<open>\<open>isinstance(v, str)\<close>\<close>

fun is_str :: "pyval \<Rightarrow> bool" where
  "is_str (PStr s) = True"
| "is_str v = False"

text \<open>\<open>data.get(key, default)\<close>\<close>

definition dict_get :: "(string \<times> pyval) list \<Rightarrow> string \<Rightarrow> pyval \<Rightarrow> pyval" where
  "dict_get data key dflt = (case map_of data key of None \<Rightarrow> dflt | Some v \<Rightarrow> v)"

text \<open>
  \<open>for x in v\<close>: a list gives its elements, a string its characters (each a string of
  length one), a dict its keys; the other values are not iterable.
\<close>

fun iterate :: "pyval \<Rightarrow> error + pyval list" where
  "iterate (PList xs) = Inr xs"
| "iterate (PStr s) = Inr (map (\<lambda>c. PStr [c]) s)"
| "iterate (PDict kvs) = Inr (map (\<lambda>kv. PStr (fst kv)) kvs)"
| "iterate v = Inl TypeError"

section \<open>Policy\<close>

record policy =
  name :: pyval
  allowed_file_paths :: pyval
  allowed_domains :: pyval
  strict :: pyval

text \<open>\<open>Policy.__init__\<close>; an argument left out is passed as its default.\<close>

definition Policy :: "pyval \<Rightarrow> pyval \<Rightarrow> pyval \<Rightarrow> pyval \<Rightarrow> policy" where
  "Policy n paths domains s =
     \<lparr> name = n,
       allowed_file_paths = (if truthy paths then paths else PList []),
       allowed_domains = (if truthy domains then domains else PList []),
       strict = s \<rparr>"

definition to_dict :: "policy \<Rightarrow> (string \<times> pyval) list" where
  "to_dict p =
     [ (''name'', name p),
       (''allowed_file_paths'', allowed_file_paths p),
       (''allowed_domains'', allowed_domains p),
       (''strict'', strict p) ]"

definition from_dict :: "(string \<times> pyval) list \<Rightarrow> error + policy" where
  "from_dict data =
     (let n = dict_get data ''name'' (PStr ''default'')
      in if \<not> is_str n
         then Inl (ValueError (''Policy name must be a string, got '' @ type_name n))
         else Inr (Policy n
                     (dict_get data ''allowed_file_paths'' (PList []))
                     (dict_get data ''allowed_domains'' (PList []))
                     (dict_get data ''strict'' (PBool False))))"

section \<open>PolicyEngine\<close>

record policy_violation =
  allowed :: bool
  resource_type :: string
  resource_path :: string
  reason :: string

text \<open>
  The matchers applied to an element of a pattern list. The source calls string methods
  on it: on an element that is not a string, \<open>_match_file_pattern\<close> raises TypeError at
  \<open>"**" in pattern\<close> (for a list or a dict the membership tests succeed and the exception
  comes from \<open>split\<close>, \<open>rstrip\<close> or \<open>fnmatch\<close>), and \<open>_match_domain\<close> raises AttributeError
  at \<open>pattern.rstrip\<close>.
\<close>

fun match_file_pattern_val :: "string \<Rightarrow> pyval \<Rightarrow> error + bool" where
  "match_file_pattern_val path (PStr pattern) = Inr (match_file_pattern path pattern)"
| "match_file_pattern_val path (PList xs) =
     (if PStr ''**'' \<in> set xs \<or> PStr ''*'' \<in> set xs then Inl AttributeError
      else Inl TypeError)"
| "match_file_pattern_val path (PDict kvs) =
     (if ''**'' \<in> fst ` set kvs \<or> ''*'' \<in> fst ` set kvs then Inl AttributeError
      else Inl TypeError)"
| "match_file_pattern_val path v = Inl TypeError"

fun match_domain_val :: "string \<Rightarrow> pyval \<Rightarrow> error + bool" where
  "match_domain_val domain (PStr pattern) = Inr (match_domain domain pattern)"
| "match_domain_val domain v = Inl AttributeError"

text \<open>
  The two \<open>for\<close> loops: the first pattern that matches ends the loop; an exception ends
  it too.
\<close>

fun file_loop :: "string \<Rightarrow> pyval list \<Rightarrow> error + bool" where
  "file_loop path [] = Inr False"
| "file_loop path (x # xs) =
     (case match_file_pattern_val path x of
        Inl e \<Rightarrow> Inl e
      | Inr True \<Rightarrow> Inr True
      | Inr False \<Rightarrow> file_loop path xs)"

fun domain_loop :: "string \<Rightarrow> pyval list \<Rightarrow> error + bool" where
  "domain_loop domain [] = Inr False"
| "domain_loop domain (x # xs) =
     (case match_domain_val domain x of
        Inl e \<Rightarrow> Inl e
      | Inr True \<Rightarrow> Inr True
      | Inr False \<Rightarrow> domain_loop domain xs)"

definition check_file_access :: "policy \<Rightarrow> string \<Rightarrow> error + policy_violation" where
  "check_file_access p path =
     (if \<not> truthy (allowed_file_paths p) then
        Inr \<lparr> allowed = False, resource_type = ''file'', resource_path = path,
              reason = ''No file paths allowed in policy'' \<rparr>
      else
        (case iterate (allowed_file_paths p) of
           Inl e \<Rightarrow> Inl e
         | Inr items \<Rightarrow>
             (case file_loop path items of
                Inl e \<Rightarrow> Inl e
              | Inr True \<Rightarrow>
                  Inr \<lparr> allowed = True, resource_type = ''file'', resource_path = path,
                        reason = [] \<rparr>
              | Inr False \<Rightarrow>
                  Inr \<lparr> allowed = False, resource_type = ''file'', resource_path = path,
                        reason = ''Path not allowed'' \<rparr>)))"

definition check_network_access :: "policy \<Rightarrow> string \<Rightarrow> error + policy_violation" where
  "check_network_access p target =
     (if \<not> truthy (allowed_domains p) then
        Inr \<lparr> allowed = False, resource_type = ''network'', resource_path = target,
              reason = ''No domains allowed in policy'' \<rparr>
      else
        (let domain = hd (split '':'' target)
         in case iterate (allowed_domains p) of
              Inl e \<Rightarrow> Inl e
            | Inr items \<Rightarrow>
                (case domain_loop domain items of
                   Inl e \<Rightarrow> Inl e
                 | Inr True \<Rightarrow>
                     Inr \<lparr> allowed = True, resource_type = ''network'',
                           resource_path = target, reason = [] \<rparr>
                 | Inr False \<Rightarrow>
                     Inr \<lparr> allowed = False, resource_type = ''network'',
                           resource_path = target, reason = ''Domain not allowed'' \<rparr>)))"

section \<open>Notions of the specification\<close>

text \<open>
  The specification speaks of "the literal prefix of the pattern before its first
  occurrence" of a separator, and of "the portion of the target before the first colon":
  the characters of \<open>s\<close> up to the first position at which \<open>sub\<close> begins (all of \<open>s\<close> when
  \<open>sub\<close> does not occur).
\<close>

fun before_first :: "string \<Rightarrow> string \<Rightarrow> string" where
  "before_first sub [] = []"
| "before_first sub (c # cs) = (if startswith (c # cs) sub then [] else c # before_first sub cs)"

text \<open>
  The classic glob match of a name against a translated pattern, as a relation: a star
  stands for any run of characters (no character is barred from the run, so a slash is
  not), every other token for one character that it admits.
\<close>

inductive glob :: "tok list \<Rightarrow> string \<Rightarrow> bool" where
  glob_end: "glob [] []"
| glob_star: "glob ts s \<Longrightarrow> glob (TStar # ts) (run @ s)"
| glob_one: "t \<noteq> TStar \<Longrightarrow> tok_ok t c \<Longrightarrow> glob ts s \<Longrightarrow> glob (t # ts) (c # s)"

text \<open>
  The classic glob match of a name against a pattern, read off the pattern's own
  characters: a star stands for any run of characters (no character is barred from the
  run, so a slash is not), a question mark for exactly one character, a bracket that is
  closed for one character of its set, a bracket that is never closed and every other
  character for itself.
\<close>

inductive classic_glob :: "string \<Rightarrow> string \<Rightarrow> bool" where
  cg_end: "classic_glob [] []"
| cg_star: "classic_glob pat s \<Longrightarrow> classic_glob (CHR ''*'' # pat) (run @ s)"
| cg_any: "classic_glob pat s \<Longrightarrow> classic_glob (CHR ''?'' # pat) (c # s)"
| cg_set: "bracket_end pat = Some j \<Longrightarrow> tok_ok (class_tok (take j pat)) c \<Longrightarrow>
           classic_glob (drop (j + 1) pat) s \<Longrightarrow> classic_glob (CHR ''['' # pat) (c # s)"
| cg_open: "bracket_end pat = None \<Longrightarrow> classic_glob pat s \<Longrightarrow>
            classic_glob (CHR ''['' # pat) (CHR ''['' # s)"
| cg_lit: "c \<noteq> CHR ''*'' \<Longrightarrow> c \<noteq> CHR ''?'' \<Longrightarrow> c \<noteq> CHR ''['' \<Longrightarrow>
           classic_glob pat s \<Longrightarrow> classic_glob (c # pat) (c # s)"

text \<open>
  What a function that may raise lets a caller observe of a field: the exception, or the
  field of the result.
\<close>

definition outcome :: "('a \<Rightarrow> 'b) \<Rightarrow> error + 'a \<Rightarrow> error + 'b" where
  "outcome field r = (case r of Inl e \<Rightarrow> Inl e | Inr v \<Rightarrow> Inr (field v))"

declare split_aux.simps [simp del]
declare chunks_loop.simps [simp del]
declare translate.simps [simp del]

section \<open>Properties of the string primitives\<close>

lemma startswith_append [simp]: "startswith (p @ s) p"
  by (simp add: startswith_def)

lemma startswith_Nil [simp]: "startswith s []"
  by (simp add: startswith_def)

lemma startswith_iff: "startswith s p \<longleftrightarrow> (\<exists>r. s = p @ r)"
  unfolding startswith_def
  by (metis append_eq_conv_conj append_take_drop_id)

lemma endswith_iff: "endswith s p \<longleftrightarrow> (\<exists>r. s = r @ p)"
proof
  assume "endswith s p"
  then have "s = take (length s - length p) s @ p"
    unfolding endswith_def by (metis append_take_drop_id)
  then show "\<exists>r. s = r @ p" ..
next
  assume "\<exists>r. s = r @ p"
  then show "endswith s p"
    unfolding endswith_def by auto
qed

lemma rstrip_snoc:
  "rstrip chars (s @ [c]) = (if c \<in> set chars then rstrip chars s else s @ [c])"
  by (simp add: rstrip_def)

lemma rstrip_keep: "c \<notin> set chars \<Longrightarrow> rstrip chars (s @ c # t) = s @ c # rstrip chars t"
proof (induction t rule: rev_induct)
  case Nil
  then show ?case by (simp add: rstrip_def)
next
  case (snoc x xs)
  have "rstrip chars (s @ c # xs @ [x]) = rstrip chars ((s @ c # xs) @ [x])" by simp
  also have "\<dots> = (if x \<in> set chars then rstrip chars (s @ c # xs) else (s @ c # xs) @ [x])"
    by (rule rstrip_snoc)
  also have "\<dots> = s @ c # rstrip chars (xs @ [x])"
    using snoc by (simp add: rstrip_snoc)
  finally show ?case .
qed

text \<open>Stripping one character: what is removed is a run of it, and none is left at the end.\<close>

lemma rstrip_char_run: "\<exists>n. s = rstrip [c] s @ replicate n c"
proof (induction s rule: rev_induct)
  case Nil
  show ?case by (simp add: rstrip_def)
next
  case (snoc x xs)
  show ?case
  proof (cases "x = c")
    case True
    from snoc obtain n where n: "xs = rstrip [c] xs @ replicate n c" ..
    have h: "xs @ [x] = rstrip [c] xs @ replicate (Suc n) c"
      using n True by (metis append_assoc replicate_append_same replicate_Suc)
    have rs: "rstrip [c] (xs @ [x]) = rstrip [c] xs"
      using True by (simp add: rstrip_snoc)
    show ?thesis
      unfolding rs using h by blast
  next
    case False
    then have "xs @ [x] = rstrip [c] (xs @ [x]) @ replicate 0 c"
      by (simp add: rstrip_snoc)
    then show ?thesis ..
  qed
qed

lemma rstrip_char_end: "\<not> endswith (rstrip [c] s) [c]"
proof (induction s rule: rev_induct)
  case Nil
  show ?case by (simp add: rstrip_def endswith_def)
next
  case (snoc x xs)
  then show ?case
    by (auto simp: rstrip_snoc endswith_def)
qed

lemma base_pattern_wildcard:
  "base_pattern (CHR ''*'' # CHR ''.'' # r) = CHR ''*'' # CHR ''.'' # base_pattern r"
proof -
  have a: "rstrip '':'' (CHR ''*'' # CHR ''.'' # r) = CHR ''*'' # CHR ''.'' # rstrip '':'' r"
    using rstrip_keep [of "CHR ''.''" "'':''" "''*''" r] by simp
  have b: "rstrip ''0-9'' (CHR ''*'' # CHR ''.'' # t) = CHR ''*'' # CHR ''.'' # rstrip ''0-9'' t" for t
    using rstrip_keep [of "CHR ''.''" "''0-9''" "''*''" t] by simp
  show ?thesis by (simp add: base_pattern_def a b)
qed

text \<open>The first piece of \<open>split\<close> is the part before the first occurrence of the separator.\<close>

lemma split_aux_hd: "sep \<noteq> [] \<Longrightarrow> hd (split_aux sep acc s) = rev acc @ before_first sep s"
proof (induction sep acc s rule: split_aux.induct)
  case (1 sep acc s)
  show ?case
  proof (cases s)
    case Nil
    then show ?thesis by (simp add: split_aux.simps)
  next
    case (Cons c cs)
    show ?thesis
    proof (cases "startswith s sep")
      case True
      have "split_aux sep acc s = rev acc # split_aux sep [] (drop (length sep) s)"
        using True Cons "1.prems" by (subst split_aux.simps) simp
      then show ?thesis
        using True Cons by simp
    next
      case False
      have ih: "hd (split_aux sep (hd s # acc) (tl s)) = rev (hd s # acc) @ before_first sep (tl s)"
        using "1.IH"(2) False Cons "1.prems" by simp
      have "split_aux sep acc s = split_aux sep (hd s # acc) (tl s)"
        using False Cons by (subst split_aux.simps) simp
      then show ?thesis
        using ih False Cons by simp
    qed
  qed
qed

lemma split_hd: "sep \<noteq> [] \<Longrightarrow> hd (split sep s) = before_first sep s"
  by (simp add: split_def split_aux_hd)

lemma before_first_char: "before_first [c] s = takeWhile (\<lambda>x. x \<noteq> c) s"
  by (induction s) (auto simp: startswith_def)

lemma before_first_decomp:
  "contains s sub \<Longrightarrow> \<exists>rest. s = before_first sub s @ sub @ rest"
proof (induction s)
  case Nil
  then show ?case by simp
next
  case (Cons c cs)
  show ?case
  proof (cases "startswith (c # cs) sub")
    case True
    then show ?thesis by (simp add: startswith_iff)
  next
    case False
    with Cons.prems have "contains cs sub" by simp
    from Cons.IH [OF this] obtain rest where "cs = before_first sub cs @ sub @ rest" ..
    then have "c # cs = before_first sub (c # cs) @ sub @ rest"
      using False by simp
    then show ?thesis ..
  qed
qed

section \<open>The matcher computes the glob relation\<close>

lemma glob_star_cons: "glob (TStar # ts) s \<Longrightarrow> glob (TStar # ts) (c # s)"
proof -
  assume "glob (TStar # ts) s"
  then obtain run s' where s: "s = run @ s'" and g: "glob ts s'"
    by (cases rule: glob.cases) auto
  have "glob (TStar # ts) ((c # run) @ s')"
    using g by (rule glob_star)
  then show ?thesis using s by simp
qed

lemma match_toks_glob: "match_toks ts s \<Longrightarrow> glob ts s"
proof (induction ts s rule: match_toks.induct)
  case (1 s)
  then show ?case by (simp add: glob_end)
next
  case (2 ts)
  then have "glob ts []" by simp
  then have "glob (TStar # ts) ([] @ [])" by (rule glob_star)
  then show ?case by simp
next
  case (3 ts c s)
  from "3.prems" have "match_toks ts (c # s) \<or> match_toks (TStar # ts) s" by simp
  then show ?case
  proof
    assume "match_toks ts (c # s)"
    then have "glob ts (c # s)" by (rule "3.IH"(1))
    then have "glob (TStar # ts) ([] @ c # s)" by (rule glob_star)
    then show ?thesis by simp
  next
    assume "match_toks (TStar # ts) s"
    then have "glob (TStar # ts) s" by (rule "3.IH"(2))
    then show ?thesis by (rule glob_star_cons)
  qed
qed (auto intro: glob_one)

lemma match_toks_star_run: "match_toks ts s \<Longrightarrow> match_toks (TStar # ts) (run @ s)"
proof (induction run)
  case Nil
  then show ?case by (cases s) auto
next
  case (Cons c run)
  then show ?case by simp
qed

lemma glob_match_toks: "glob ts s \<Longrightarrow> match_toks ts s"
proof (induction rule: glob.induct)
  case glob_end
  show ?case by simp
next
  case (glob_star ts s run)
  then show ?case by (simp add: match_toks_star_run)
next
  case (glob_one t c ts s)
  then show ?case by (cases t) auto
qed

lemma fnmatch_glob: "fnmatch path pat \<longleftrightarrow> glob (translate pat) path"
  unfolding fnmatch_def using match_toks_glob glob_match_toks by blast

text \<open>The translated pattern denotes the glob relation on the pattern's characters.\<close>

lemma class_tok_not_star: "class_tok stuff \<noteq> TStar"
  by (simp add: class_tok_def Let_def split: list.splits)

lemma classic_glob_glob: "classic_glob pat s \<Longrightarrow> glob (translate pat) s"
proof (induction rule: classic_glob.induct)
  case cg_end
  show ?case by (simp add: translate.simps glob_end)
next
  case (cg_star pat s run)
  then show ?case by (simp add: translate.simps glob_star)
next
  case (cg_any pat s c)
  then show ?case by (simp add: translate.simps glob_one)
next
  case (cg_set pat j c s)
  then show ?case by (simp add: translate.simps glob_one class_tok_not_star)
next
  case (cg_open pat s)
  then show ?case by (simp add: translate.simps glob_one)
next
  case (cg_lit c pat s)
  then show ?case by (simp add: translate.simps glob_one)
qed

lemma glob_nil_inv: "glob [] s \<Longrightarrow> s = []"
  by (cases rule: glob.cases) auto

lemma glob_star_inv: "glob (TStar # ts) s \<Longrightarrow> \<exists>run s'. s = run @ s' \<and> glob ts s'"
  by (cases rule: glob.cases) auto

lemma glob_one_inv:
  "glob (t # ts) s \<Longrightarrow> t \<noteq> TStar \<Longrightarrow> \<exists>c s'. s = c # s' \<and> tok_ok t c \<and> glob ts s'"
  by (cases rule: glob.cases) auto

lemma glob_classic_glob: "glob (translate pat) s \<Longrightarrow> classic_glob pat s"
proof (induction pat arbitrary: s rule: translate.induct)
  case 1
  then have "s = []" by (simp add: translate.simps glob_nil_inv)
  then show ?case by (simp add: cg_end)
next
  case (2 c cs)
  show ?case
  proof (cases "c = CHR ''*''")
    case True
    with "2.prems" have "glob (TStar # translate cs) s" by (simp add: translate.simps)
    then obtain run s' where s: "s = run @ s'" and g: "glob (translate cs) s'"
      using glob_star_inv by blast
    from "2.IH"(1) [OF True g] have "classic_glob cs s'" .
    then show ?thesis using True s by (simp add: cg_star)
  next
    case star: False
    show ?thesis
    proof (cases "c = CHR ''?''")
      case True
      with "2.prems" have "glob (TAny # translate cs) s" by (simp add: translate.simps)
      then obtain x s' where s: "s = x # s'" and g: "glob (translate cs) s'"
        using glob_one_inv by blast
      from "2.IH"(2) [OF star True g] have "classic_glob cs s'" .
      then show ?thesis using True s by (simp add: cg_any)
    next
      case any: False
      show ?thesis
      proof (cases "c = CHR ''[''")
        case True
        show ?thesis
        proof (cases "bracket_end cs")
          case None
          with "2.prems" True have "glob (TLit CHR ''['' # translate cs) s"
            by (simp add: translate.simps)
          then obtain x s' where s: "s = x # s'" and x: "tok_ok (TLit CHR ''['') x"
            and g: "glob (translate cs) s'"
            using glob_one_inv by blast
          from "2.IH"(3) [OF star any True None g] have "classic_glob cs s'" .
          then show ?thesis using True None s x by (simp add: cg_open)
        next
          case (Some j)
          with "2.prems" True
          have "glob (class_tok (take j cs) # translate (drop (j + 1) cs)) s"
            by (simp add: translate.simps)
          then obtain x s' where s: "s = x # s'" and x: "tok_ok (class_tok (take j cs)) x"
            and g: "glob (translate (drop (j + 1) cs)) s'"
            using glob_one_inv class_tok_not_star by blast
          from "2.IH"(4) [OF star any True Some g] have "classic_glob (drop (j + 1) cs) s'" .
          then show ?thesis using True Some s x cg_set by blast
        qed
      next
        case False
        with "2.prems" star any have "glob (TLit c # translate cs) s"
          by (simp add: translate.simps)
        then obtain x s' where s: "s = x # s'" and x: "tok_ok (TLit c) x"
          and g: "glob (translate cs) s'"
          using glob_one_inv by blast
        from "2.IH"(5) [OF star any False g] have "classic_glob cs s'" .
        then show ?thesis using star any False s x by (simp add: cg_lit)
      qed
    qed
  qed
qed

lemma fnmatch_classic_glob: "fnmatch path pat \<longleftrightarrow> classic_glob pat path"
  using fnmatch_glob classic_glob_glob glob_classic_glob by blast

text \<open>
  The bracket sets on examples, as CPython's \<open>fnmatch\<close> decides them: a range, a negated
  set, a leading closing bracket, an empty range, and a bracket that is never closed.
\<close>

lemma fnmatch_bracket_examples:
  "fnmatch ''b'' ''[a-c]'' \<and> \<not> fnmatch ''d'' ''[a-c]''
   \<and> fnmatch ''d'' ''[!a-c]'' \<and> \<not> fnmatch ''b'' ''[!a-c]''
   \<and> fnmatch '']'' ''[]a]'' \<and> fnmatch ''-'' ''[a-]''
   \<and> \<not> fnmatch ''b'' ''[b-a]'' \<and> fnmatch ''[a'' ''[a''
   \<and> fnmatch ''[!]'' ''[!]''"
  by code_simp

section \<open>Properties of the engine's loops\<close>

lemma file_loop_strings:
  "file_loop path (map PStr pats) = Inr (\<exists>pat \<in> set pats. match_file_pattern path pat)"
  by (induction pats) (auto split: bool.splits)

lemma domain_loop_strings:
  "domain_loop domain (map PStr pats) = Inr (\<exists>pat \<in> set pats. match_domain domain pat)"
  by (induction pats) (auto split: bool.splits)

lemma match_star: "match_file_pattern path ''*''"
  by (simp add: match_file_pattern_def startswith_def rstrip_def)

lemma match_dstar: "match_file_pattern path ''**''"
proof -
  have "hd (split ''**'' ''**'') = []"
    by (simp add: split_hd startswith_def)
  then show ?thesis
    by (simp add: match_file_pattern_def startswith_def)
qed

section \<open>Claims about PathMatcher\<close>

text \<open>
  C2. For a pattern that contains \<open>**\<close>, the match succeeds iff the path starts with the
  literal prefix of the pattern before its first \<open>**\<close>, or the path satisfies the classic
  glob match against the whole pattern: a star is any run of characters, the slash
  included, a question mark is one character (the relation \<open>classic_glob\<close>, which is
  what \<open>fnmatch\<close> computes). So \<open>/home/user/**\<close> matches \<open>/home/user/subdir/file.txt\<close> and
  does not match \<open>/home/other/file.txt\<close>; and \<open>*/x/**\<close> matches \<open>a/x/b\<close>, \<open>?b/**\<close>
  matches \<open>ab/c\<close>, by the glob match alone.
\<close>

theorem C2_recursive_wildcard:
  "(contains pattern ''**'' \<longrightarrow>
      (\<exists>rest. pattern = before_first ''**'' pattern @ ''**'' @ rest) \<and>
      (match_file_pattern path pattern \<longleftrightarrow>
         startswith path (before_first ''**'' pattern) \<or> classic_glob pattern path))
   \<and> (fnmatch path pattern \<longleftrightarrow> classic_glob pattern path)
   \<and> (fnmatch path pattern \<longleftrightarrow> glob (translate pattern) path)
   \<and> match_file_pattern ''/home/user/subdir/file.txt'' ''/home/user/**''
   \<and> \<not> match_file_pattern ''/home/other/file.txt'' ''/home/user/**''
   \<and> \<not> startswith ''a/x/b'' (before_first ''**'' ''*/x/**'')
   \<and> match_file_pattern ''a/x/b'' ''*/x/**''
   \<and> \<not> match_file_pattern ''a/y/b'' ''*/x/**''
   \<and> \<not> startswith ''ab/c'' (before_first ''**'' ''?b/**'')
   \<and> match_file_pattern ''ab/c'' ''?b/**''
   \<and> \<not> match_file_pattern ''b/c'' ''?b/**''"
proof -
  have 0: "contains pattern ''**'' \<longrightarrow>
      (match_file_pattern path pattern \<longleftrightarrow>
         startswith path (before_first ''**'' pattern) \<or> classic_glob pattern path)"
    by (simp add: match_file_pattern_def split_hd fnmatch_classic_glob)
  have 1: "contains pattern ''**'' \<longrightarrow>
      (\<exists>rest. pattern = before_first ''**'' pattern @ ''**'' @ rest) \<and>
      (match_file_pattern path pattern \<longleftrightarrow>
         startswith path (before_first ''**'' pattern) \<or> classic_glob pattern path)"
    using 0 before_first_decomp [of pattern "''**''"] by blast
  have c: "fnmatch path pattern \<longleftrightarrow> classic_glob pattern path"
    by (rule fnmatch_classic_glob)
  have g: "fnmatch path pattern \<longleftrightarrow> glob (translate pattern) path"
    by (rule fnmatch_glob)
  have 2: "match_file_pattern ''/home/user/subdir/file.txt'' ''/home/user/**''"
    by code_simp
  have 3: "\<not> match_file_pattern ''/home/other/file.txt'' ''/home/user/**''"
    by code_simp
  have 4: "\<not> startswith ''a/x/b'' (before_first ''**'' ''*/x/**'')"
    by code_simp
  have 5: "match_file_pattern ''a/x/b'' ''*/x/**''"
    by code_simp
  have 6: "\<not> match_file_pattern ''a/y/b'' ''*/x/**''"
    by code_simp
  have 7: "\<not> startswith ''ab/c'' (before_first ''**'' ''?b/**'')"
    by code_simp
  have 8: "match_file_pattern ''ab/c'' ''?b/**''"
    by code_simp
  have 9: "\<not> match_file_pattern ''b/c'' ''?b/**''"
    by code_simp
  from 1 c g 2 3 4 5 6 7 8 9 show ?thesis by blast
qed

theorem C2_recursive_wildcard_witness:
  "contains ''*/x/**'' ''**''
   \<and> before_first ''**'' ''*/x/**'' = ''*/x/''
   \<and> \<not> startswith ''a/x/b'' (before_first ''**'' ''*/x/**'')
   \<and> match_file_pattern ''a/x/b'' ''*/x/**''
   \<and> classic_glob ''*/x/**'' ''a/x/b''
   \<and> contains ''/data/**/*.txt'' ''**''
   \<and> \<not> match_file_pattern ''/etc/a.txt'' ''/data/**/*.txt''
   \<and> \<not> classic_glob ''/data/**/*.txt'' ''/etc/a.txt''"
proof -
  have h: "contains ''*/x/**'' ''**''" by code_simp
  have b: "before_first ''**'' ''*/x/**'' = ''*/x/''" by code_simp
  have n: "\<not> startswith ''a/x/b'' (before_first ''**'' ''*/x/**'')" by code_simp
  have m: "match_file_pattern ''a/x/b'' ''*/x/**''" by code_simp
  have h2: "contains ''/data/**/*.txt'' ''**''" by code_simp
  have n2: "\<not> match_file_pattern ''/etc/a.txt'' ''/data/**/*.txt''" by code_simp
  have g1: "classic_glob ''*/x/**'' ''a/x/b''"
    using C2_recursive_wildcard [of "''*/x/**''" "''a/x/b''"] h n m by blast
  have g2: "\<not> classic_glob ''/data/**/*.txt'' ''/etc/a.txt''"
    using C2_recursive_wildcard [of "''/data/**/*.txt''" "''/etc/a.txt''"] h2 n2 by blast
  from h b n m g1 h2 n2 g2 show ?thesis by blast
qed

text \<open>
  C3. For a pattern that contains \<open>*\<close> but not \<open>**\<close>, the match succeeds iff the path
  starts with the literal prefix obtained by stripping all trailing stars and then all
  trailing slashes from the pattern: the pattern is that prefix, a run of slashes and a
  run of stars, the prefix does not end with a slash, and what stands before the stars
  does not end with a star. So \<open>/home/user/*\<close> matches \<open>/home/user/file.txt\<close>,
  \<open>/home/user/subdir\<close> and \<open>/home/user/subdir/file.txt\<close>.
\<close>

theorem C3_single_wildcard:
  "(contains pattern ''*'' \<and> \<not> contains pattern ''**'' \<longrightarrow>
      (match_file_pattern path pattern \<longleftrightarrow>
         startswith path (rstrip ''/'' (rstrip ''*'' pattern))))
   \<and> (\<exists>m n. pattern = rstrip ''/'' (rstrip ''*'' pattern)
                 @ replicate m CHR ''/'' @ replicate n CHR ''*''
            \<and> rstrip ''*'' pattern = rstrip ''/'' (rstrip ''*'' pattern) @ replicate m CHR ''/'')
   \<and> \<not> endswith (rstrip ''*'' pattern) ''*''
   \<and> \<not> endswith (rstrip ''/'' (rstrip ''*'' pattern)) ''/''
   \<and> match_file_pattern ''/home/user/file.txt'' ''/home/user/*''
   \<and> match_file_pattern ''/home/user/subdir'' ''/home/user/*''
   \<and> match_file_pattern ''/home/user/subdir/file.txt'' ''/home/user/*''"
proof -
  have 1: "contains pattern ''*'' \<and> \<not> contains pattern ''**'' \<longrightarrow>
      (match_file_pattern path pattern \<longleftrightarrow>
         startswith path (rstrip ''/'' (rstrip ''*'' pattern)))"
    by (simp add: match_file_pattern_def)
  obtain n where n: "pattern = rstrip ''*'' pattern @ replicate n CHR ''*''"
    using rstrip_char_run [of pattern "CHR ''*''"] by blast
  obtain m where m: "rstrip ''*'' pattern
      = rstrip ''/'' (rstrip ''*'' pattern) @ replicate m CHR ''/''"
    using rstrip_char_run [of "rstrip ''*'' pattern" "CHR ''/''"] by blast
  have "pattern = rstrip ''/'' (rstrip ''*'' pattern)
                 @ replicate m CHR ''/'' @ replicate n CHR ''*''"
    using n m by (metis append_assoc)
  with m have 2: "\<exists>m n. pattern = rstrip ''/'' (rstrip ''*'' pattern)
                 @ replicate m CHR ''/'' @ replicate n CHR ''*''
            \<and> rstrip ''*'' pattern = rstrip ''/'' (rstrip ''*'' pattern) @ replicate m CHR ''/''"
    by blast
  have 3: "\<not> endswith (rstrip ''*'' pattern) ''*''"
    by (rule rstrip_char_end)
  have 4: "\<not> endswith (rstrip ''/'' (rstrip ''*'' pattern)) ''/''"
    by (rule rstrip_char_end)
  have 5: "match_file_pattern ''/home/user/file.txt'' ''/home/user/*''"
    by code_simp
  have 6: "match_file_pattern ''/home/user/subdir'' ''/home/user/*''"
    by code_simp
  have 7: "match_file_pattern ''/home/user/subdir/file.txt'' ''/home/user/*''"
    by code_simp
  from 1 2 3 4 5 6 7 show ?thesis by blast
qed

theorem C3_single_wildcard_witness:
  "contains ''/home/user/*'' ''*'' \<and> \<not> contains ''/home/user/*'' ''**''
   \<and> rstrip ''/'' (rstrip ''*'' ''/home/user/*'') = ''/home/user''
   \<and> (match_file_pattern ''/home/other/x'' ''/home/user/*'' \<longleftrightarrow>
        startswith ''/home/other/x'' (rstrip ''/'' (rstrip ''*'' ''/home/user/*'')))
   \<and> \<not> match_file_pattern ''/home/other/x'' ''/home/user/*''"
proof -
  have h1: "contains ''/home/user/*'' ''*''" by code_simp
  have h2: "\<not> contains ''/home/user/*'' ''**''" by code_simp
  have r: "rstrip ''/'' (rstrip ''*'' ''/home/user/*'') = ''/home/user''" by code_simp
  have s: "\<not> startswith ''/home/other/x'' ''/home/user''" by code_simp
  show ?thesis
    using C3_single_wildcard [of "''/home/user/*''" "''/home/other/x''"] h1 h2 r s by simp
qed

text \<open>
  C10. Every path, the empty one too, matches the pattern \<open>**\<close> and the pattern \<open>*\<close>: the
  literal prefix is empty. Hence a policy whose list of allowed file paths (a list of
  strings) contains \<open>*\<close> or \<open>**\<close> allows every path.
\<close>

theorem C10_star_allows_everything:
  "match_file_pattern path ''**''
   \<and> match_file_pattern path ''*''
   \<and> match_file_pattern [] ''**''
   \<and> match_file_pattern [] ''*''
   \<and> (allowed_file_paths p = PList (map PStr pats) \<and> (''*'' \<in> set pats \<or> ''**'' \<in> set pats)
        \<longrightarrow> check_file_access p path =
              Inr \<lparr> allowed = True, resource_type = ''file'', resource_path = path,
                    reason = [] \<rparr>)"
proof -
  have loop: "file_loop path (map PStr pats) = Inr True"
    if "''*'' \<in> set pats \<or> ''**'' \<in> set pats"
    using that match_star [of path] match_dstar [of path]
    by (auto simp: file_loop_strings)
  have 5: "allowed_file_paths p = PList (map PStr pats)
           \<and> (''*'' \<in> set pats \<or> ''**'' \<in> set pats)
        \<longrightarrow> check_file_access p path =
              Inr \<lparr> allowed = True, resource_type = ''file'', resource_path = path,
                    reason = [] \<rparr>"
  proof
    assume a: "allowed_file_paths p = PList (map PStr pats)
           \<and> (''*'' \<in> set pats \<or> ''**'' \<in> set pats)"
    then have ne: "pats \<noteq> []" by auto
    show "check_file_access p path =
              Inr \<lparr> allowed = True, resource_type = ''file'', resource_path = path,
                    reason = [] \<rparr>"
      using a ne loop by (simp add: check_file_access_def)
  qed
  show ?thesis
    using match_star match_dstar 5 by blast
qed

theorem C10_star_allows_everything_witness:
  "allowed_file_paths (Policy (PStr ''p'') (PList (map PStr [''/tmp/x'', ''*''])) PNone (PBool False))
     = PList (map PStr [''/tmp/x'', ''*''])
   \<and> ''*'' \<in> set [''/tmp/x'', ''*'']
   \<and> check_file_access (Policy (PStr ''p'') (PList (map PStr [''/tmp/x'', ''*''])) PNone (PBool False))
        ''/etc/passwd''
      = Inr \<lparr> allowed = True, resource_type = ''file'', resource_path = ''/etc/passwd'',
               reason = [] \<rparr>"
proof -
  have h: "allowed_file_paths (Policy (PStr ''p'') (PList (map PStr [''/tmp/x'', ''*''])) PNone (PBool False))
     = PList (map PStr [''/tmp/x'', ''*''])"
    by (simp add: Policy_def)
  have m: "''*'' \<in> set [''/tmp/x'', ''*'']" by simp
  show ?thesis
    using C10_star_allows_everything
      [of "''/etc/passwd''"
          "Policy (PStr ''p'') (PList (map PStr [''/tmp/x'', ''*''])) PNone (PBool False)"
          "[''/tmp/x'', ''*'']"] h m
    by blast
qed

section \<open>Claims about DomainMatcher\<close>

text \<open>
  C1 (the code departs from the claim). The claim: preprocessing strips all trailing colons
  and all trailing decimal digits, so a pattern \<open>base:digits\<close> matches as \<open>base\<close> does.
  The source strips with the character set \<open>0\<close>, \<open>-\<close>, \<open>9\<close>, and strips colons first: the
  pattern \<open>example.com:443\<close> is left unchanged and does not match the domain
  \<open>example.com\<close>, which the pattern \<open>example.com\<close> matches.
\<close>

theorem C1_port_suffix_not_stripped:
  "base_pattern ''example.com:443'' = ''example.com:443''
   \<and> match_domain ''example.com'' ''example.com:443'' = False
   \<and> match_domain ''example.com'' ''example.com'' = True"
  by (simp add: base_pattern_def rstrip_def match_domain_def startswith_def)

text \<open>
  C4. For a pattern \<open>*.r\<close> the match succeeds iff the domain equals the base (the pattern
  after preprocessing, without its leading \<open>*.\<close>; preprocessing leaves the leading \<open>*.\<close>
  alone, so this is the preprocessed \<open>r\<close>), or the domain ends with a dot followed by the
  base. So \<open>*.google.com\<close> matches \<open>google.com\<close>, \<open>www.google.com\<close> and \<open>api.google.com\<close>
  and does not match \<open>google.com.evil.com\<close>.
\<close>

theorem C4_subdomain_wildcard:
  "(match_domain domain (''*.'' @ r) \<longleftrightarrow>
      domain = drop 2 (base_pattern (''*.'' @ r)) \<or>
      (\<exists>sub. domain = sub @ ''.'' @ drop 2 (base_pattern (''*.'' @ r))))
   \<and> drop 2 (base_pattern (''*.'' @ r)) = base_pattern r
   \<and> match_domain ''google.com'' ''*.google.com''
   \<and> match_domain ''www.google.com'' ''*.google.com''
   \<and> match_domain ''api.google.com'' ''*.google.com''
   \<and> \<not> match_domain ''google.com.evil.com'' ''*.google.com''"
proof -
  have w: "startswith (''*.'' @ r) ''*.''" for r
    by (simp add: startswith_def)
  have 1: "match_domain domain (''*.'' @ r) \<longleftrightarrow>
      domain = drop 2 (base_pattern (''*.'' @ r)) \<or>
      (\<exists>sub. domain = sub @ ''.'' @ drop 2 (base_pattern (''*.'' @ r)))"
    unfolding match_domain_def using w [of r]
    by (simp add: Let_def endswith_iff)
  have 2: "drop 2 (base_pattern (''*.'' @ r)) = base_pattern r"
    by (simp add: base_pattern_wildcard)
  have 3: "match_domain ''google.com'' ''*.google.com''"
    by (simp add: match_domain_def startswith_def base_pattern_def rstrip_def)
  have 4: "match_domain ''www.google.com'' ''*.google.com''"
    by (simp add: match_domain_def startswith_def endswith_def base_pattern_def rstrip_def)
  have 5: "match_domain ''api.google.com'' ''*.google.com''"
    by (simp add: match_domain_def startswith_def endswith_def base_pattern_def rstrip_def)
  have 6: "\<not> match_domain ''google.com.evil.com'' ''*.google.com''"
    by (simp add: match_domain_def startswith_def endswith_def base_pattern_def rstrip_def)
  from 1 2 3 4 5 6 show ?thesis by blast
qed

section \<open>Claims about PolicyEngine\<close>

text \<open>
  C5. Two targets with the same portion before the first colon get the same outcome from
  \<open>check_network_access\<close>, in the allowed flag and in the reason, under every policy:
  the port is discarded before matching. So with \<open>api.example.com\<close> among the allowed
  domains (a list of strings), the targets \<open>api.example.com:443\<close> and
  \<open>api.example.com:8080\<close> are both allowed.
\<close>

theorem C5_port_ignored:
  "before_first '':'' t1 = takeWhile (\<lambda>c. c \<noteq> CHR '':'') t1
   \<and> (before_first '':'' t1 = before_first '':'' t2 \<longrightarrow>
      outcome allowed (check_network_access p t1) = outcome allowed (check_network_access p t2)
      \<and> outcome reason (check_network_access p t1) = outcome reason (check_network_access p t2))
   \<and> (allowed_domains q = PList (map PStr pats) \<and> ''api.example.com'' \<in> set pats \<longrightarrow>
        outcome allowed (check_network_access q ''api.example.com:443'') = Inr True
        \<and> outcome allowed (check_network_access q ''api.example.com:8080'') = Inr True)"
proof -
  have 1: "before_first '':'' t1 = before_first '':'' t2 \<longrightarrow>
      outcome allowed (check_network_access p t1) = outcome allowed (check_network_access p t2)
      \<and> outcome reason (check_network_access p t1) = outcome reason (check_network_access p t2)"
    by (simp add: check_network_access_def outcome_def split_hd Let_def
             split: sum.splits bool.splits)
  have d1: "hd (split '':'' ''api.example.com:443'') = ''api.example.com''"
    by (simp add: split_hd startswith_def)
  have d2: "hd (split '':'' ''api.example.com:8080'') = ''api.example.com''"
    by (simp add: split_hd startswith_def)
  have m: "match_domain ''api.example.com'' ''api.example.com''"
    by (simp add: match_domain_def startswith_def base_pattern_def rstrip_def)
  have 2: "allowed_domains q = PList (map PStr pats) \<and> ''api.example.com'' \<in> set pats \<longrightarrow>
        outcome allowed (check_network_access q ''api.example.com:443'') = Inr True
        \<and> outcome allowed (check_network_access q ''api.example.com:8080'') = Inr True"
  proof
    assume a: "allowed_domains q = PList (map PStr pats) \<and> ''api.example.com'' \<in> set pats"
    then have ne: "pats \<noteq> []" by auto
    have l: "domain_loop ''api.example.com'' (map PStr pats) = Inr True"
      using a m by (auto simp: domain_loop_strings)
    show "outcome allowed (check_network_access q ''api.example.com:443'') = Inr True
        \<and> outcome allowed (check_network_access q ''api.example.com:8080'') = Inr True"
      using a ne l by (simp add: check_network_access_def outcome_def d1 d2)
  qed
  have 0: "before_first '':'' t1 = takeWhile (\<lambda>c. c \<noteq> CHR '':'') t1"
    by (rule before_first_char)
  from 0 1 2 show ?thesis by blast
qed

theorem C5_port_ignored_witness:
  "before_first '':'' ''evil.com:443'' = before_first '':'' ''evil.com:8080''
   \<and> outcome allowed (check_network_access
        (Policy (PStr ''p'') PNone (PList (map PStr [''api.example.com''])) (PBool False))
        ''evil.com:443'') = Inr False
   \<and> outcome reason (check_network_access
        (Policy (PStr ''p'') PNone (PList (map PStr [''api.example.com''])) (PBool False))
        ''evil.com:443'')
     = outcome reason (check_network_access
        (Policy (PStr ''p'') PNone (PList (map PStr [''api.example.com''])) (PBool False))
        ''evil.com:8080'')
   \<and> outcome allowed (check_network_access
        (Policy (PStr ''p'') PNone (PList (map PStr [''api.example.com''])) (PBool False))
        ''evil.com:8080'') = Inr False
   \<and> allowed_domains (Policy (PStr ''p'') PNone (PList (map PStr [''api.example.com''])) (PBool False))
       = PList (map PStr [''api.example.com''])
   \<and> ''api.example.com'' \<in> set [''api.example.com'']
   \<and> outcome allowed (check_network_access
        (Policy (PStr ''p'') PNone (PList (map PStr [''api.example.com''])) (PBool False))
        ''api.example.com:443'') = Inr True
   \<and> outcome allowed (check_network_access
        (Policy (PStr ''p'') PNone (PList (map PStr [''api.example.com''])) (PBool False))
        ''api.example.com:8080'') = Inr True"
proof -
  let ?p = "Policy (PStr ''p'') PNone (PList (map PStr [''api.example.com''])) (PBool False)"
  have h: "before_first '':'' ''evil.com:443'' = before_first '':'' ''evil.com:8080''"
    by (simp add: startswith_def)
  have e: "outcome allowed (check_network_access ?p ''evil.com:443'') = Inr False"
    by code_simp
  have a: "allowed_domains ?p = PList (map PStr [''api.example.com''])"
    by (simp add: Policy_def)
  have m: "''api.example.com'' \<in> set [''api.example.com'']" by simp
  show ?thesis
    using C5_port_ignored [of "''evil.com:443''" "''evil.com:8080''" ?p ?p "[''api.example.com'']"]
      h e a m
    by metis
qed

text \<open>
  C6. A policy whose list of allowed file paths is empty denies every path with the
  reason "No file paths allowed in policy", and a policy whose list of allowed domains is
  empty denies every target with the reason "No domains allowed in policy".
\<close>

theorem C6_empty_lists_deny:
  "(allowed_file_paths p = PList [] \<longrightarrow>
      check_file_access p path =
        Inr \<lparr> allowed = False, resource_type = ''file'', resource_path = path,
              reason = ''No file paths allowed in policy'' \<rparr>)
   \<and> (allowed_domains p = PList [] \<longrightarrow>
        check_network_access p target =
          Inr \<lparr> allowed = False, resource_type = ''network'', resource_path = target,
                reason = ''No domains allowed in policy'' \<rparr>)"
  by (simp add: check_file_access_def check_network_access_def)

theorem C6_empty_lists_deny_witness:
  "allowed_file_paths (Policy (PStr ''empty'') (PList []) (PList []) (PBool False)) = PList []
   \<and> check_file_access (Policy (PStr ''empty'') (PList []) (PList []) (PBool False)) ''/any/path''
      = Inr \<lparr> allowed = False, resource_type = ''file'', resource_path = ''/any/path'',
               reason = ''No file paths allowed in policy'' \<rparr>
   \<and> allowed_domains (Policy (PStr ''empty'') (PList []) (PList []) (PBool False)) = PList []
   \<and> check_network_access (Policy (PStr ''empty'') (PList []) (PList []) (PBool False)) ''any.com''
      = Inr \<lparr> allowed = False, resource_type = ''network'', resource_path = ''any.com'',
               reason = ''No domains allowed in policy'' \<rparr>"
proof -
  let ?p = "Policy (PStr ''empty'') (PList []) (PList []) (PBool False)"
  have a: "allowed_file_paths ?p = PList []" by (simp add: Policy_def)
  have b: "allowed_domains ?p = PList []" by (simp add: Policy_def)
  show ?thesis
    using C6_empty_lists_deny [of ?p "''/any/path''" "''any.com''"] a b by blast
qed

section \<open>Claims about Policy\<close>

text \<open>
  C7. Round trip: for a policy constructed from a string name, any lists of strings and a
  boolean, \<open>from_dict (to_dict p)\<close> succeeds with a policy whose four fields equal those
  of \<open>p\<close>. (It holds for every constructed policy whose name is a string, whatever the
  other arguments.)
\<close>

theorem C7_round_trip:
  "from_dict (to_dict (Policy (PStr n) (PList (map PStr fs)) (PList (map PStr ds)) (PBool s)))
     = Inr (Policy (PStr n) (PList (map PStr fs)) (PList (map PStr ds)) (PBool s))
   \<and> name (Policy (PStr n) (PList (map PStr fs)) (PList (map PStr ds)) (PBool s)) = PStr n
   \<and> allowed_file_paths (Policy (PStr n) (PList (map PStr fs)) (PList (map PStr ds)) (PBool s))
       = PList (map PStr fs)
   \<and> allowed_domains (Policy (PStr n) (PList (map PStr fs)) (PList (map PStr ds)) (PBool s))
       = PList (map PStr ds)
   \<and> strict (Policy (PStr n) (PList (map PStr fs)) (PList (map PStr ds)) (PBool s)) = PBool s
   \<and> from_dict (to_dict (Policy (PStr n) paths domains flag))
       = Inr (Policy (PStr n) paths domains flag)"
  by (simp add: from_dict_def to_dict_def Policy_def dict_get_def)

text \<open>
  C8. \<open>from_dict\<close> fails iff the record has a \<open>name\<close> whose value is not a string; it then
  fails with the ValueError (the specification's ValidationError) whose message ends
  with the name of the actual type of that value. When \<open>name\<close> is absent it succeeds and
  the name is \<open>default\<close>. So a record with \<open>name\<close> 123 fails with a message that says
  \<open>int\<close>.
\<close>

theorem C8_name_validation:
  "((\<exists>e. from_dict d = Inl e) \<longleftrightarrow> (\<exists>v. map_of d ''name'' = Some v \<and> \<not> is_str v))
   \<and> (map_of d ''name'' = Some v \<and> \<not> is_str v \<longrightarrow>
        from_dict d = Inl (ValueError (''Policy name must be a string, got '' @ type_name v)))
   \<and> (map_of d ''name'' = None \<longrightarrow> (\<exists>p. from_dict d = Inr p \<and> name p = PStr ''default''))
   \<and> from_dict [(''name'', PInt 123), (''allowed_file_paths'', PList [])]
       = Inl (ValueError ''Policy name must be a string, got int'')"
proof -
  have 1: "(\<exists>e. from_dict d = Inl e) \<longleftrightarrow> (\<exists>v. map_of d ''name'' = Some v \<and> \<not> is_str v)"
    by (cases "map_of d ''name''") (auto simp: from_dict_def dict_get_def)
  have 2: "map_of d ''name'' = Some v \<and> \<not> is_str v \<longrightarrow>
        from_dict d = Inl (ValueError (''Policy name must be a string, got '' @ type_name v))"
    by (simp add: from_dict_def dict_get_def)
  have 3: "map_of d ''name'' = None \<longrightarrow> (\<exists>p. from_dict d = Inr p \<and> name p = PStr ''default'')"
    by (simp add: from_dict_def dict_get_def Policy_def)
  have 4: "from_dict [(''name'', PInt 123), (''allowed_file_paths'', PList [])]
       = Inl (ValueError ''Policy name must be a string, got int'')"
    by (simp add: from_dict_def dict_get_def)
  from 1 2 3 4 show ?thesis by blast
qed

theorem C8_name_validation_witness:
  "map_of [(''name'', PList [PStr ''a''])] ''name'' = Some (PList [PStr ''a''])
   \<and> \<not> is_str (PList [PStr ''a''])
   \<and> from_dict [(''name'', PList [PStr ''a''])]
       = Inl (ValueError ''Policy name must be a string, got list'')
   \<and> map_of [(''strict'', PBool True)] ''name'' = None
   \<and> (\<exists>p. from_dict [(''strict'', PBool True)] = Inr p \<and> name p = PStr ''default'')"
proof -
  have a: "map_of [(''name'', PList [PStr ''a''])] ''name'' = Some (PList [PStr ''a''])" by simp
  have b: "\<not> is_str (PList [PStr ''a''])" by simp
  have c: "map_of [(''strict'', PBool True)] ''name'' = None" by simp
  have t: "''Policy name must be a string, got '' @ type_name (PList [PStr ''a''])
           = ''Policy name must be a string, got list''" by simp
  have 1: "from_dict [(''name'', PList [PStr ''a''])]
       = Inl (ValueError ''Policy name must be a string, got list'')"
    using C8_name_validation [of "[(''name'', PList [PStr ''a''])]" "PList [PStr ''a'']"] a b t
    by metis
  have 2: "\<exists>p. from_dict [(''strict'', PBool True)] = Inr p \<and> name p = PStr ''default''"
    using C8_name_validation [of "[(''strict'', PBool True)]"] c by blast
  from a b c 1 2 show ?thesis by blast
qed

text \<open>
  C9. No field but \<open>name\<close> is validated: when \<open>name\<close> is absent or a string, \<open>from_dict\<close>
  succeeds whatever the values of \<open>allowed_file_paths\<close>, \<open>allowed_domains\<close> and \<open>strict\<close>
  are, and stores them as given, a falsy value of a list field replaced by the empty
  list. A string for \<open>allowed_file_paths\<close> is accepted.
\<close>

theorem C9_no_other_validation:
  "(map_of d ''name'' = None \<or> (\<exists>s. map_of d ''name'' = Some (PStr s)) \<longrightarrow>
      from_dict d =
        Inr \<lparr> name = dict_get d ''name'' (PStr ''default''),
              allowed_file_paths =
                (if truthy (dict_get d ''allowed_file_paths'' (PList []))
                 then dict_get d ''allowed_file_paths'' (PList []) else PList []),
              allowed_domains =
                (if truthy (dict_get d ''allowed_domains'' (PList []))
                 then dict_get d ''allowed_domains'' (PList []) else PList []),
              strict = dict_get d ''strict'' (PBool False) \<rparr>)
   \<and> from_dict [(''allowed_file_paths'', PStr ''/tmp''), (''allowed_domains'', PInt 0),
                 (''strict'', PStr ''yes'')]
       = Inr \<lparr> name = PStr ''default'', allowed_file_paths = PStr ''/tmp'',
                allowed_domains = PList [], strict = PStr ''yes'' \<rparr>"
proof -
  have 1: "map_of d ''name'' = None \<or> (\<exists>s. map_of d ''name'' = Some (PStr s)) \<longrightarrow>
      from_dict d =
        Inr \<lparr> name = dict_get d ''name'' (PStr ''default''),
              allowed_file_paths =
                (if truthy (dict_get d ''allowed_file_paths'' (PList []))
                 then dict_get d ''allowed_file_paths'' (PList []) else PList []),
              allowed_domains =
                (if truthy (dict_get d ''allowed_domains'' (PList []))
                 then dict_get d ''allowed_domains'' (PList []) else PList []),
              strict = dict_get d ''strict'' (PBool False) \<rparr>"
    by (auto simp: from_dict_def Policy_def dict_get_def)
  have 2: "from_dict [(''allowed_file_paths'', PStr ''/tmp''), (''allowed_domains'', PInt 0),
                 (''strict'', PStr ''yes'')]
       = Inr \<lparr> name = PStr ''default'', allowed_file_paths = PStr ''/tmp'',
                allowed_domains = PList [], strict = PStr ''yes'' \<rparr>"
    by (simp add: from_dict_def Policy_def dict_get_def)
  from 1 2 show ?thesis by blast
qed

theorem C9_no_other_validation_witness:
  "map_of [(''name'', PStr ''n''), (''allowed_file_paths'', PDict [(''k'', PNone)]),
           (''allowed_domains'', PStr [])] ''name'' = Some (PStr ''n'')
   \<and> from_dict [(''name'', PStr ''n''), (''allowed_file_paths'', PDict [(''k'', PNone)]),
                 (''allowed_domains'', PStr [])]
       = Inr \<lparr> name = PStr ''n'', allowed_file_paths = PDict [(''k'', PNone)],
                allowed_domains = PList [], strict = PBool False \<rparr>"
proof -
  let ?d = "[(''name'', PStr ''n''), (''allowed_file_paths'', PDict [(''k'', PNone)]),
             (''allowed_domains'', PStr [])]"
  have a: "map_of ?d ''name'' = Some (PStr ''n'')" by simp
  then have h: "map_of ?d ''name'' = None \<or> (\<exists>s. map_of ?d ''name'' = Some (PStr s))" by blast
  have g: "dict_get ?d ''name'' (PStr ''default'') = PStr ''n''"
    "dict_get ?d ''allowed_file_paths'' (PList []) = PDict [(''k'', PNone)]"
    "dict_get ?d ''allowed_domains'' (PList []) = PStr []"
    "dict_get ?d ''strict'' (PBool False) = PBool False"
    by (simp_all add: dict_get_def)
  show ?thesis
    using C9_no_other_validation [of ?d] h a by (simp add: g)
qed

end
